theory Spec2Isabelle
  imports Complex_Main "HOL-Library.Word" "HOL-Library.Sublist"
begin

section \<open>The realtime voice session of SevaAssistant.tsx\<close>

text \<open>
  The component \<open>SevaAssistant\<close> keeps React state (\<open>useState\<close>) and mutable refs
  (\<open>useRef\<close>), and reacts to callbacks of the browser and of the remote session. Each
  callback is a function from the component state to the component state. Calls that
  leave the component (\<open>source.start\<close>, \<open>s.stop\<close>, \<open>session.close\<close>,
  \<open>console.error\<close>, \<open>onCommand\<close>) are recorded in the state, in the order they are
  made. The outbound path (\<open>onaudioprocess\<close>, the session promise and
  \<open>session.sendRealtimeInput\<close>) shares no cell with the rest of the component and has
  a state of its own.

  Numbers: JavaScript Numbers that hold times are modelled as \<open>real\<close>. Audio samples
  are read from a \<open>Float32Array\<close>; the product with \<open>32768\<close> and the quotient by
  \<open>32768.0\<close> are exact in binary floating point (a power of two, no overflow for
  samples of magnitude at most 1), so \<open>real\<close> arithmetic computes the same values.
\<close>

subsection \<open>PCM samples\<close>

type_synonym int16 = "16 word"
type_synonym byte = "8 word"

text \<open>
  Storing a Number into an \<open>Int16Array\<close> applies ToInt16: the number is truncated
  towards zero and then taken modulo \<open>2 ^ 16\<close> into the signed range.
\<close>

definition js_trunc :: "real \<Rightarrow> int" where
  "js_trunc x = (if x < 0 then - \<lfloor>- x\<rfloor> else \<lfloor>x\<rfloor>)"

definition toInt16 :: "real \<Rightarrow> int16" where
  "toInt16 x = word_of_int (js_trunc x)"

text \<open>Line 63: \<^verbatim>\<open>int16[i] = inputData[i] * 32768\<close>.\<close>

definition encode_sample :: "real \<Rightarrow> int16" where
  "encode_sample v = toInt16 (v * 32768)"

text \<open>Line 37: \<^verbatim>\<open>channelData[i] = dataInt16[...] / 32768.0\<close>.\<close>

definition decode_sample :: "int16 \<Rightarrow> real" where
  "decode_sample w = real_of_int (sint w) / 32768"


subsection \<open>Typed-array views\<close>

datatype error =
    RangeError | NotSupportedError | InvalidStateError
  | NotAllowedError | NotFoundError | ConnectionError

text \<open>
  Line 31: \<^verbatim>\<open>new Int16Array(data.buffer)\<close> reinterprets the bytes in pairs, low byte
  first (every browser platform is little-endian). The constructor throws a
  \<open>RangeError\<close> when the byte length is not a multiple of 2.
\<close>

fun int16_pairs :: "byte list \<Rightarrow> int16 list" where
  "int16_pairs (lo # hi # bytes) = word_cat hi lo # int16_pairs bytes"
| "int16_pairs bytes = []"

definition Int16Array_view :: "byte list \<Rightarrow> error + int16 list" where
  "Int16Array_view data =
     (if odd (length data) then Inl RangeError else Inr (int16_pairs data))"

text \<open>Line 66: \<^verbatim>\<open>new Uint8Array(int16.buffer)\<close>, the same view in the other direction.\<close>

definition Uint8Array_view :: "int16 list \<Rightarrow> byte list" where
  "Uint8Array_view int16 = concat (map (\<lambda>w. [ucast w, ucast (drop_bit 8 w)]) int16)"

subsection \<open>The playback decoder (lines 30-41)\<close>

record audio_buffer =
  channelData :: "real list list"
  buffer_length :: nat
  buffer_sampleRate :: nat

text \<open>\<^verbatim>\<open>AudioBuffer.duration\<close> is the length in sample frames over the sample rate.\<close>

definition duration :: "audio_buffer \<Rightarrow> real" where
  "duration b = real (buffer_length b) / real (buffer_sampleRate b)"

text \<open>
  \<^verbatim>\<open>ctx.createBuffer(numChannels, frameCount, sampleRate)\<close> throws a
  \<open>NotSupportedError\<close> when an argument is zero or outside its nominal range. The
  ranges below are the ones every implementation of the Web Audio API has to support;
  the only call of \<open>decodeAudioData\<close> (line 81) passes \<open>24000\<close> and \<open>1\<close>.
\<close>

definition createBuffer_ok :: "nat \<Rightarrow> nat \<Rightarrow> nat \<Rightarrow> bool" where
  "createBuffer_ok numChannels frameCount sampleRate \<longleftrightarrow>
     1 \<le> numChannels \<and> numChannels \<le> 32 \<and> 0 < frameCount \<and>
     8000 \<le> sampleRate \<and> sampleRate \<le> 96000"

text \<open>
  \<open>frameCount\<close> is \<^verbatim>\<open>dataInt16.length / numChannels\<close>. When the quotient is not an
  integer, \<open>createBuffer\<close> truncates it (an \<open>unsigned long\<close> argument) and the one extra
  iteration of the inner loop writes past the end of \<open>channelData\<close>, which a typed
  array ignores: the buffer holds \<open>length div numChannels\<close> frames.
\<close>

definition decodeAudioData :: "byte list \<Rightarrow> nat \<Rightarrow> nat \<Rightarrow> error + audio_buffer" where
  "decodeAudioData data sampleRate numChannels =
     (case Int16Array_view data of
        Inl e \<Rightarrow> Inl e
      | Inr dataInt16 \<Rightarrow>
          let frameCount = length dataInt16 div numChannels in
          if \<not> createBuffer_ok numChannels frameCount sampleRate then Inl NotSupportedError
          else Inr \<lparr>channelData =
                      map (\<lambda>channel.
                        map (\<lambda>i. decode_sample (dataInt16 ! (i * numChannels + channel)))
                          [0..<frameCount])
                        [0..<numChannels],
                    buffer_length = frameCount,
                    buffer_sampleRate = sampleRate\<rparr>)"

subsection \<open>Component state\<close>

type_synonym source = nat   \<comment> \<open>identity of an \<open>AudioBufferSourceNode\<close>\<close>
type_synonym session = nat  \<comment> \<open>identity of a resolved live session\<close>
type_synonym audio_context = nat \<comment> \<open>identity of an \<open>AudioContext\<close>\<close>
type_synonym media_stream = nat \<comment> \<open>identity of a \<open>MediaStream\<close>\<close>

text \<open>
  The first five fields are the \<open>useState\<close> cells (lines 10-14), the next four the
  \<open>useRef\<close> cells (lines 16-19). \<open>sourcesRef\<close> is a JavaScript \<open>Set\<close>: a duplicate-free
  collection iterated in insertion order. \<open>created\<close> counts the nodes made by
  \<open>createBufferSource\<close>, so that every new node has a fresh identity. The remaining
  fields record the calls that leave the component: \<open>source.start(t)\<close> with the
  duration of the buffer started, \<open>s.stop()\<close>, \<open>session.close()\<close>, \<open>console.error\<close>,
  and the state \<open>world\<close> of the surrounding application, which only \<open>onCommand\<close> changes.
\<close>

record 'w seva =
  isActive :: bool
  isMinimized :: bool
  isVisible :: bool
  transcription :: string
  isSpeaking :: bool
  audioContextRef :: "audio_context option"
  sessionRef :: "session option"
  nextStartTimeRef :: real
  sourcesRef :: "source list"
  created :: nat
  startCalls :: "(source \<times> real \<times> real) list"
  stopCalls :: "source list"
  closeCalls :: "session list"
  consoleErrors :: "error list"
  world :: 'w

definition initial :: "'w \<Rightarrow> 'w seva" where
  "initial w =
     \<lparr>isActive = False, isMinimized = True, isVisible = True, transcription = [],
      isSpeaking = False, audioContextRef = None, sessionRef = None,
      nextStartTimeRef = 0, sourcesRef = [], created = 0, startCalls = [],
      stopCalls = [], closeCalls = [], consoleErrors = [], world = w\<rparr>"

definition Set_add :: "'a \<Rightarrow> 'a list \<Rightarrow> 'a list" where
  "Set_add x xs = (if x \<in> set xs then xs else xs @ [x])"

definition Set_delete :: "'a \<Rightarrow> 'a list \<Rightarrow> 'a list" where
  "Set_delete x xs = filter (\<lambda>y. y \<noteq> x) xs"

text \<open>
  A callback either returns or throws; in both cases the state it has written so far
  stays behind.
\<close>

datatype 's outcome = Returned 's | Threw error 's

fun left_behind :: "'s outcome \<Rightarrow> 's" where
  "left_behind (Returned s) = s"
| "left_behind (Threw e s) = s"

fun and_then :: "'s outcome \<Rightarrow> ('s \<Rightarrow> 's outcome) \<Rightarrow> 's outcome" where
  "and_then (Returned s) f = f s"
| "and_then (Threw e s) f = Threw e s"

subsection \<open>Inbound messages (lines 78-115)\<close>

text \<open>
  The fields of a server message that \<open>onmessage\<close> reads. \<open>inlineData\<close> is
  \<open>serverContent.modelTurn.parts[0].inlineData.data\<close> as the bytes that \<open>decode\<close>
  (lines 21-28) makes of the base64 string; the empty string is falsy and decodes to no
  bytes. \<open>inputTranscription\<close> is \<open>serverContent.inputTranscription.text\<close>.
\<close>

record server_message =
  inlineData :: "byte list option"
  inputTranscription :: "string option"
  turnComplete :: bool
  interrupted :: bool

text \<open>
  What \<open>onmessage\<close> reads from the browser: \<open>outputCtx.currentTime\<close>, and whether
  \<open>stop()\<close> on a given node throws.
\<close>

record browser =
  currentTime :: real
  stopThrows :: "source \<Rightarrow> bool"

text \<open>Lines 85-96, from \<open>createBufferSource\<close> to the registration of \<open>onended\<close>.\<close>

definition schedule :: "real \<Rightarrow> audio_buffer \<Rightarrow> 'w seva \<Rightarrow> 'w seva" where
  "schedule now audioBuffer s =
     (let source = created s;
          start = max (nextStartTimeRef s) now
      in s\<lparr>created := Suc source,
           nextStartTimeRef := start + duration audioBuffer,
           startCalls := startCalls s @ [(source, start, duration audioBuffer)],
           sourcesRef := Set_add source (sourcesRef s)\<rparr>)"

text \<open>Lines 93-96, the handler \<open>source.onended\<close>.\<close>

definition onended :: "source \<Rightarrow> 'w seva \<Rightarrow> 'w seva" where
  "onended source s =
     (let s1 = s\<lparr>sourcesRef := Set_delete source (sourcesRef s)\<rparr>
      in if length (sourcesRef s1) = 0 then s1\<lparr>isSpeaking := False\<rparr> else s1)"

text \<open>Lines 79-97. An exception of \<open>decodeAudioData\<close> leaves \<open>onmessage\<close>.\<close>

definition audio_branch :: "browser \<Rightarrow> server_message \<Rightarrow> 'w seva \<Rightarrow> 'w seva outcome" where
  "audio_branch env msg s =
     (case inlineData msg of
        None \<Rightarrow> Returned s
      | Some data \<Rightarrow>
          if data = [] then Returned s
          else
            let s1 = s\<lparr>isSpeaking := True\<rparr> in
            (case decodeAudioData data 24000 1 of
               Inl e \<Rightarrow> Threw e s1
             | Inr audioBuffer \<Rightarrow> Returned (schedule (currentTime env) audioBuffer s1)))"

text \<open>Lines 98-100.\<close>

definition transcription_branch :: "server_message \<Rightarrow> 'w seva \<Rightarrow> 'w seva" where
  "transcription_branch msg s =
     (case inputTranscription msg of
        None \<Rightarrow> s
      | Some text \<Rightarrow> s\<lparr>transcription := text\<rparr>)"

text \<open>
  Lines 101-106. The prop \<open>onCommand\<close> is optional (line 6); a callback acts on the
  surrounding application. A string is truthy when it is not empty.
\<close>

definition turnComplete_branch ::
  "(string \<Rightarrow> 'w \<Rightarrow> 'w) option \<Rightarrow> server_message \<Rightarrow> 'w seva \<Rightarrow> 'w seva" where
  "turnComplete_branch onCommand msg s =
     (if turnComplete msg then
        let t = transcription s;
            s1 = (case onCommand of
                    None \<Rightarrow> s
                  | Some callback \<Rightarrow>
                      if t \<noteq> [] then s\<lparr>world := callback t (world s)\<rparr> else s)
        in s1\<lparr>transcription := []\<rparr>
      else s)"

text \<open>
  Lines 107-114. \<open>stop\<close> is the call \<^verbatim>\<open>s.stop()\<close>, \<open>try_stop\<close> the statement
  \<^verbatim>\<open>try { s.stop(); } catch(e) {}\<close>, and \<open>forEach\<close> the iteration, which an
  exception of its callback would leave.
\<close>

definition stop :: "browser \<Rightarrow> source \<Rightarrow> 'w seva \<Rightarrow> 'w seva outcome" where
  "stop env source s =
     (let s1 = s\<lparr>stopCalls := stopCalls s @ [source]\<rparr>
      in if stopThrows env source then Threw InvalidStateError s1 else Returned s1)"

definition try_stop :: "browser \<Rightarrow> source \<Rightarrow> 'w seva \<Rightarrow> 'w seva outcome" where
  "try_stop env source s =
     (case stop env source s of
        Returned s1 \<Rightarrow> Returned s1
      | Threw e s1 \<Rightarrow> Returned s1)"

fun forEach :: "('a \<Rightarrow> 's \<Rightarrow> 's outcome) \<Rightarrow> 'a list \<Rightarrow> 's \<Rightarrow> 's outcome" where
  "forEach f [] s = Returned s"
| "forEach f (x # xs) s = and_then (f x s) (forEach f xs)"

definition interrupted_branch :: "browser \<Rightarrow> server_message \<Rightarrow> 'w seva \<Rightarrow> 'w seva outcome" where
  "interrupted_branch env msg s =
     (if interrupted msg then
        and_then (forEach (try_stop env) (sourcesRef s) s)
          (\<lambda>s1. Returned (s1\<lparr>sourcesRef := [], nextStartTimeRef := 0, isSpeaking := False\<rparr>))
      else Returned s)"

text \<open>
  The handler as a whole. Its only \<open>await\<close> is on the promise of \<open>decodeAudioData\<close>,
  which is settled when it is awaited, so the handler finishes within the task that
  called it and is modelled as one step.
\<close>

definition onmessage ::
  "(string \<Rightarrow> 'w \<Rightarrow> 'w) option \<Rightarrow> browser \<Rightarrow> server_message \<Rightarrow> 'w seva \<Rightarrow> 'w seva outcome" where
  "onmessage onCommand env msg s =
     and_then (audio_branch env msg s)
       (\<lambda>s1. interrupted_branch env msg
                (turnComplete_branch onCommand msg (transcription_branch msg s1)))"

text \<open>Lines 116-117.\<close>

definition onerror :: "error \<Rightarrow> 'w seva \<Rightarrow> 'w seva" where
  "onerror e s = s\<lparr>consoleErrors := consoleErrors s @ [e]\<rparr>"

definition onclose :: "'w seva \<Rightarrow> 'w seva" where
  "onclose s = s\<lparr>isActive := False\<rparr>"

subsection \<open>Starting and stopping a session (lines 43-142)\<close>

text \<open>
  What the calls of \<open>startSession\<close> into the browser and the SDK give: the constructors
  of lines 46-48, \<open>getUserMedia\<close> (line 51) and the session promise (lines 53 and 127).
\<close>

record startup =
  newGoogleGenAI :: "error option"
  newInputCtx :: "error + audio_context"
  newOutputCtx :: "error + audio_context"
  getUserMedia :: "error + media_stream"
  liveConnect :: "error + session"

text \<open>The body of the \<open>try\<close> block, lines 45-129.\<close>

definition startSession_body :: "startup \<Rightarrow> 'w seva \<Rightarrow> 'w seva outcome" where
  "startSession_body env s =
     (case newGoogleGenAI env of
        Some e \<Rightarrow> Threw e s
      | None \<Rightarrow>
     (case newInputCtx env of
        Inl e \<Rightarrow> Threw e s
      | Inr inputCtx \<Rightarrow>
     (case newOutputCtx env of
        Inl e \<Rightarrow> Threw e s
      | Inr outputCtx \<Rightarrow>
          let s1 = s\<lparr>audioContextRef := Some outputCtx\<rparr> in
     (case getUserMedia env of
        Inl e \<Rightarrow> Threw e s1
      | Inr stream \<Rightarrow>
     (case liveConnect env of
        Inl e \<Rightarrow> Threw e s1
      | Inr session \<Rightarrow>
          Returned (s1\<lparr>sessionRef := Some session, isActive := True,
                       isMinimized := False\<rparr>))))))"

text \<open>Lines 43-133: the \<open>catch\<close> clause logs the error and returns.\<close>

definition startSession :: "startup \<Rightarrow> 'w seva \<Rightarrow> 'w seva outcome" where
  "startSession env s =
     (case startSession_body env s of
        Returned s1 \<Rightarrow> Returned s1
      | Threw err s1 \<Rightarrow> Returned (s1\<lparr>consoleErrors := consoleErrors s1 @ [err]\<rparr>))"

definition startup_fails :: "startup \<Rightarrow> bool" where
  "startup_fails env \<longleftrightarrow>
     newGoogleGenAI env \<noteq> None \<or> isl (newInputCtx env) \<or> isl (newOutputCtx env) \<or>
     isl (getUserMedia env) \<or> isl (liveConnect env)"

text \<open>Lines 135-142. \<open>session.close()\<close> closes the connection and does not throw.\<close>

definition stopSession :: "'w seva \<Rightarrow> 'w seva" where
  "stopSession s =
     (let s1 = (case sessionRef s of
                  Some session \<Rightarrow>
                    s\<lparr>closeCalls := closeCalls s @ [session], sessionRef := None\<rparr>
                | None \<Rightarrow> s)
      in s1\<lparr>isActive := False, isMinimized := True\<rparr>)"

text \<open>Lines 170-180, the \<open>onClick\<close> of the round button.\<close>

definition toggle_click :: "startup \<Rightarrow> 'w seva \<Rightarrow> 'w seva outcome" where
  "toggle_click env s =
     (if isMinimized s then
        if isActive s then Returned (s\<lparr>isMinimized := False\<rparr>)
        else startSession env s
      else Returned (s\<lparr>isMinimized := True\<rparr>))"

subsection \<open>Runs of the component\<close>

text \<open>
  The callbacks that read or write the component state, as events: an inbound message
  with what the browser answers while it is handled, the end of a playback, the
  \<open>onerror\<close> and \<open>onclose\<close> callbacks of the session, and the clicks on the round
  button (with what a startup would meet), on \<open>stop\<close>, \<open>_\<close>, \<open>hide\<close> and the
  restore button. \<open>onopen\<close> (lines 56-77) only installs the capture callback. A run
  goes on with the state a handler leaves behind, also when the handler threw.
\<close>

datatype event =
    Message browser server_message
  | Ended source
  | ServerError error
  | ServerClose
  | ToggleClick startup
  | StopClick
  | MinimizeClick
  | HideClick
  | ShowClick

fun step :: "(string \<Rightarrow> 'w \<Rightarrow> 'w) option \<Rightarrow> event \<Rightarrow> 'w seva \<Rightarrow> 'w seva" where
  "step onCommand (Message env msg) s = left_behind (onmessage onCommand env msg s)"
| "step onCommand (Ended source) s = onended source s"
| "step onCommand (ServerError e) s = onerror e s"
| "step onCommand ServerClose s = onclose s"
| "step onCommand (ToggleClick env) s = left_behind (toggle_click env s)"
| "step onCommand StopClick s = stopSession s"
| "step onCommand MinimizeClick s = s\<lparr>isMinimized := True\<rparr>"
| "step onCommand HideClick s = s\<lparr>isVisible := False\<rparr>"
| "step onCommand ShowClick s = s\<lparr>isVisible := True\<rparr>"

definition run :: "(string \<Rightarrow> 'w \<Rightarrow> 'w) option \<Rightarrow> event list \<Rightarrow> 'w seva \<Rightarrow> 'w seva" where
  "run onCommand events s = fold (step onCommand) events s"

text \<open>
  A run of the scheduler over decoded frames, each with the device time at which it is
  scheduled.
\<close>

definition play_all :: "(real \<times> audio_buffer) list \<Rightarrow> 'w seva \<Rightarrow> 'w seva" where
  "play_all frames s = fold (\<lambda>(now, audioBuffer). schedule now audioBuffer) frames s"




subsection \<open>Messages and states used in the statements\<close>

text \<open>
  The inbound events of the session, one field of the message set in each:
  an audio chunk, a partial transcript, the end of a turn, an interruption.
\<close>

definition no_content :: server_message where
  "no_content =
     \<lparr>inlineData = None, inputTranscription = None, turnComplete = False,
      interrupted = False\<rparr>"

definition audio_chunk :: "byte list \<Rightarrow> server_message" where
  "audio_chunk data = no_content\<lparr>inlineData := Some data\<rparr>"

definition partial_transcript :: "string \<Rightarrow> server_message" where
  "partial_transcript str = no_content\<lparr>inputTranscription := Some str\<rparr>"

definition turn_complete :: server_message where
  "turn_complete = no_content\<lparr>turnComplete := True\<rparr>"

definition barge_in :: server_message where
  "barge_in = no_content\<lparr>interrupted := True\<rparr>"

definition audio_chunks :: "(browser \<times> byte list) list \<Rightarrow> event list" where
  "audio_chunks cs = map (\<lambda>(env, data). Message env (audio_chunk data)) cs"

definition partial_transcripts :: "(browser \<times> string) list \<Rightarrow> event list" where
  "partial_transcripts xs = map (\<lambda>(env, str). Message env (partial_transcript str)) xs"


definition quiet :: browser where
  "quiet = \<lparr>currentTime = 0, stopThrows = (\<lambda>source. False)\<rparr>"

definition first_stop_throws :: browser where
  "first_stop_throws = \<lparr>currentTime = 1, stopThrows = (\<lambda>source. source = 0)\<rparr>"


definition two_playing :: "unit seva" where
  "two_playing =
     (initial ())\<lparr>isSpeaking := True, nextStartTimeRef := 5, sourcesRef := [0, 1],
                  created := 2\<rparr>"

definition log_command :: "string \<Rightarrow> string list \<Rightarrow> string list" where
  "log_command c w = w @ [c]"


definition mic_denied :: startup where
  "mic_denied =
     \<lparr>newGoogleGenAI = None, newInputCtx = Inr 0, newOutputCtx = Inr 1,
      getUserMedia = Inl NotAllowedError, liveConnect = Inr 0\<rparr>"

subsection \<open>The session channel (lines 53, 59-74)\<close>

text \<open>
  \<open>sessionPromise\<close> is the promise returned by \<open>ai.live.connect\<close>. The capture callback
  \<open>onaudioprocess\<close> never touches a session object: it registers a reaction on the
  promise with \<open>then\<close> (line 71). The promise follows ECMAScript: \<open>then\<close> on a pending
  promise appends the reaction to the promise's list; fulfilment queues one job per
  listed reaction, in list order, with the session as argument; \<open>then\<close> on a fulfilled
  promise queues the job at once; a fulfilment reaction of a rejected promise never
  runs. Jobs run first in, first out. A reaction here is determined by the payload it
  closes over, the bytes of the frame before \<open>btoa\<close>; running it is the call
  \<open>session.sendRealtimeInput\<close>, recorded in \<open>sent\<close>.
\<close>

datatype promise = Pending | Fulfilled session | Rejected error

record channel =
  sessionPromise :: promise
  reactions :: "byte list list"
  microtasks :: "(session \<times> byte list) list"
  sent :: "(session \<times> byte list) list"

definition connecting :: channel where
  "connecting = \<lparr>sessionPromise = Pending, reactions = [], microtasks = [], sent = []\<rparr>"

text \<open>Lines 60-68: the samples of channel 0 as 16-bit PCM bytes.\<close>

definition frame_payload :: "real list \<Rightarrow> byte list" where
  "frame_payload inputData = Uint8Array_view (map encode_sample inputData)"

definition promise_then :: "byte list \<Rightarrow> channel \<Rightarrow> channel" where
  "promise_then payload ch =
     (case sessionPromise ch of
        Pending \<Rightarrow> ch\<lparr>reactions := reactions ch @ [payload]\<rparr>
      | Fulfilled session \<Rightarrow> ch\<lparr>microtasks := microtasks ch @ [(session, payload)]\<rparr>
      | Rejected e \<Rightarrow> ch)"

text \<open>Lines 59-74.\<close>

definition onaudioprocess :: "real list \<Rightarrow> channel \<Rightarrow> channel" where
  "onaudioprocess inputData ch = promise_then (frame_payload inputData) ch"

text \<open>The connection attempt ends: the promise is fulfilled with the session or rejected.\<close>

definition settle :: "error + session \<Rightarrow> channel \<Rightarrow> channel" where
  "settle result ch =
     (case sessionPromise ch of
        Pending \<Rightarrow>
          (case result of
             Inr session \<Rightarrow>
               ch\<lparr>sessionPromise := Fulfilled session,
                  microtasks := microtasks ch @ map (Pair session) (reactions ch),
                  reactions := []\<rparr>
           | Inl e \<Rightarrow> ch\<lparr>sessionPromise := Rejected e, reactions := []\<rparr>)
      | Fulfilled session \<Rightarrow> ch
      | Rejected e \<Rightarrow> ch)"

definition run_microtask :: "channel \<Rightarrow> channel" where
  "run_microtask ch =
     (case microtasks ch of
        [] \<Rightarrow> ch
      | job # jobs \<Rightarrow> ch\<lparr>microtasks := jobs, sent := sent ch @ [job]\<rparr>)"

datatype channel_event = AudioProcess "real list" | Settle "error + session" | Microtask

fun channel_step :: "channel_event \<Rightarrow> channel \<Rightarrow> channel" where
  "channel_step (AudioProcess inputData) ch = onaudioprocess inputData ch"
| "channel_step (Settle result) ch = settle result ch"
| "channel_step Microtask ch = run_microtask ch"

definition channel_run :: "channel_event list \<Rightarrow> channel \<Rightarrow> channel" where
  "channel_run events ch = fold channel_step events ch"

text \<open>The payloads of the frames captured during a run, in capture order.\<close>

fun captured :: "channel_event list \<Rightarrow> byte list list" where
  "captured [] = []"
| "captured (AudioProcess inputData # events) = frame_payload inputData # captured events"
| "captured (e # events) = captured events"

definition payloads_of :: "channel_event \<Rightarrow> byte list list" where
  "payloads_of e =
     (case e of AudioProcess inputData \<Rightarrow> [frame_payload inputData] | _ \<Rightarrow> [])"

definition channel_inv :: "byte list list \<Rightarrow> channel \<Rightarrow> bool" where
  "channel_inv frames ch =
     (case sessionPromise ch of
        Pending \<Rightarrow> sent ch = [] \<and> microtasks ch = [] \<and> reactions ch = frames
      | Fulfilled session \<Rightarrow>
          reactions ch = [] \<and> sent ch @ microtasks ch = map (Pair session) frames
      | Rejected e \<Rightarrow> sent ch = [] \<and> microtasks ch = [] \<and> reactions ch = [])"

section \<open>Properties\<close>

lemma js_trunc_bounds:
  "\<bar>real_of_int (js_trunc x) - x\<bar> < 1"
  unfolding js_trunc_def by (simp add: abs_if) linarith

subsection \<open>PCM round trip\<close>

lemma sint_int16_of_int:
  "- 32768 \<le> k \<Longrightarrow> k < 32768 \<Longrightarrow> sint (word_of_int k :: int16) = k"
  by (simp add: sint_sbintrunc' signed_take_bit_int_eq_self)

lemma js_trunc_range:
  assumes "- 1 \<le> v" "v < 1"
  shows "- 32768 \<le> js_trunc (v * 32768)" "js_trunc (v * 32768) < 32768"
proof -
  show "- 32768 \<le> js_trunc (v * 32768)"
    using assms unfolding js_trunc_def by (auto simp: le_floor_iff)
  show "js_trunc (v * 32768) < 32768"
  proof (cases "v < 0")
    case True
    then have "0 \<le> \<lfloor>- (v * 32768)\<rfloor>" by simp
    then have "- \<lfloor>- (v * 32768)\<rfloor> < 32768" by linarith
    then show ?thesis using True by (simp only: js_trunc_def mult_less_0_iff) simp
  next
    case False
    then show ?thesis using assms by (simp add: js_trunc_def floor_less_iff)
  qed
qed

text \<open>
  Below full scale the round trip loses less than one quantization step: truncation
  moves the scaled sample by less than 1, and the result fits 16 bits.
\<close>

lemma roundtrip_below_full_scale:
  assumes "- 1 \<le> v" "v < 1"
  shows "\<bar>decode_sample (encode_sample v) - v\<bar> < 1 / 32768"
proof -
  let ?k = "js_trunc (v * 32768)"
  have b: "\<bar>real_of_int ?k - v * 32768\<bar> < 1"
    by (rule js_trunc_bounds)
  have "sint (word_of_int ?k :: int16) = ?k"
    using js_trunc_range [OF assms] by (rule sint_int16_of_int)
  then have "decode_sample (encode_sample v) = real_of_int ?k / 32768"
    by (simp add: decode_sample_def encode_sample_def toInt16_def)
  then show ?thesis
    using b by (simp add: field_simps abs_if split: if_splits)
qed

text \<open>
  C2. The claim: for every sample \<open>v\<close> with \<open>-1 \<le> v \<le> 1\<close>, encoding by the capture
  pipeline and decoding by the playback decoder gives a value within one quantization
  step \<open>1/32768\<close> of \<open>v\<close>. At \<open>v = 1\<close> the scaled sample is \<open>32768\<close>, one more than the
  largest 16-bit value; the store into the \<open>Int16Array\<close> wraps it to \<open>-32768\<close>, which
  decodes to \<open>-1\<close>, at distance 2 from \<open>v\<close>.
\<close>

theorem full_scale_sample_wraps:
  "encode_sample 1 = - 32768 \<and> sint (encode_sample 1) = - 32768 \<and>
   decode_sample (encode_sample 1) = - 1 \<and>
   \<not> \<bar>decode_sample (encode_sample 1) - 1\<bar> \<le> 1 / 32768"
  by (simp add: encode_sample_def decode_sample_def toInt16_def js_trunc_def)

subsection \<open>The wire format\<close>

lemma word_cat_bytes:
  "word_cat (ucast (drop_bit 8 w) :: byte) (ucast w :: byte) = (w :: int16)"
  by (rule bit_word_eqI) (auto simp: bit_word_cat_iff bit_ucast_iff bit_drop_bit_eq)

lemma int16_pairs_Uint8Array_view: "int16_pairs (Uint8Array_view int16) = int16"
  by (induction int16) (simp_all add: Uint8Array_view_def word_cat_bytes)

lemma length_int16_pairs: "length (int16_pairs bytes) = length bytes div 2"
  by (induction bytes rule: int16_pairs.induct) simp_all

lemma map_nth_comp: "map (\<lambda>i. f (xs ! i)) [0..<length xs] = map f xs"
  by (rule nth_equalityI) simp_all

text \<open>A payload of one or more whole samples decodes to one channel at 24 kHz.\<close>

lemma decodeAudioData_mono:
  assumes "data \<noteq> []" "even (length data)"
  shows "\<exists>b. decodeAudioData data 24000 1 = Inr b \<and>
             buffer_length b = length data div 2 \<and> buffer_sampleRate b = 24000 \<and>
             channelData b = [map decode_sample (int16_pairs data)]"
proof -
  have "2 \<le> length data"
    using assms by (cases data) (auto elim: oddE)
  then have pos: "0 < length data div 2"
    by simp
  have "map (\<lambda>i. decode_sample (int16_pairs data ! i)) [0..<length data div 2] =
        map decode_sample (int16_pairs data)"
    using map_nth_comp [of decode_sample "int16_pairs data"]
    by (simp add: length_int16_pairs)
  then show ?thesis
    using assms pos
    by (simp add: decodeAudioData_def Int16Array_view_def createBuffer_ok_def
        length_int16_pairs Let_def)
qed

lemma decodeAudioData_odd:
  "odd (length data) \<Longrightarrow> decodeAudioData data sampleRate numChannels = Inl RangeError"
  by (simp add: decodeAudioData_def Int16Array_view_def)

subsection \<open>The handler, branch by branch\<close>


text \<open>
  A payload with a dangling byte: the exception leaves the handler after the indicator
  was set, and the branches behind the audio branch do not run.
\<close>

lemma onmessage_dangling_byte:
  assumes "inlineData msg = Some data" "odd (length data)"
  shows "onmessage onCommand env msg s = Threw RangeError (s\<lparr>isSpeaking := True\<rparr>)"
proof -
  have "data \<noteq> []" using assms(2) by auto
  then show ?thesis
    using assms by (simp add: onmessage_def audio_branch_def decodeAudioData_odd)
qed


lemma forEach_try_stop:
  "forEach (try_stop env) xs s = Returned (s\<lparr>stopCalls := stopCalls s @ xs\<rparr>)"
  by (induction xs arbitrary: s) (simp_all add: try_stop_def stop_def Let_def)

text \<open>Without the \<open>try\<close>, the first failing \<open>stop\<close> would end the iteration.\<close>

lemma forEach_stop_throws:
  "stopThrows env x \<Longrightarrow>
   forEach (stop env) (x # xs) s =
     Threw InvalidStateError (s\<lparr>stopCalls := stopCalls s @ [x]\<rparr>)"
  by (simp add: stop_def Let_def)

lemma interrupted_branch_eq:
  "interrupted msg \<Longrightarrow>
   interrupted_branch env msg s =
     Returned (s\<lparr>stopCalls := stopCalls s @ sourcesRef s, sourcesRef := [],
                 nextStartTimeRef := 0, isSpeaking := False\<rparr>)"
  by (simp add: interrupted_branch_def forEach_try_stop)


lemma left_behind_and_then:
  "left_behind (and_then r f) =
     (case r of Returned s \<Rightarrow> left_behind (f s) | Threw e s \<Rightarrow> s)"
  by (cases r) simp_all

lemma onmessage_audio_chunk:
  assumes "data \<noteq> []" "even (length data)"
  shows "\<exists>b. decodeAudioData data 24000 1 = Inr b \<and>
             duration b = real (length data div 2) / 24000 \<and>
             onmessage onCommand env (audio_chunk data) s =
               Returned (schedule (currentTime env) b (s\<lparr>isSpeaking := True\<rparr>))"
proof -
  obtain b where b: "decodeAudioData data 24000 1 = Inr b"
      "buffer_length b = length data div 2" "buffer_sampleRate b = 24000"
    using decodeAudioData_mono [OF assms] by blast
  have "onmessage onCommand env (audio_chunk data) s =
          Returned (schedule (currentTime env) b (s\<lparr>isSpeaking := True\<rparr>))"
    using assms(1) b(1)
    by (simp add: onmessage_def audio_branch_def audio_chunk_def no_content_def
        transcription_branch_def turnComplete_branch_def interrupted_branch_def)
  then show ?thesis using b by (simp add: duration_def)
qed

lemma step_partial_transcript:
  "step onCommand (Message env (partial_transcript str)) s = s\<lparr>transcription := str\<rparr>"
  by (simp add: onmessage_def audio_branch_def transcription_branch_def
      turnComplete_branch_def interrupted_branch_def partial_transcript_def no_content_def)

lemma step_turn_complete:
  "step onCommand (Message env turn_complete) s =
     turnComplete_branch onCommand turn_complete s"
  by (simp add: onmessage_def audio_branch_def transcription_branch_def
      interrupted_branch_def turn_complete_def no_content_def)

lemma run_snoc: "run onCommand (events @ [e]) s = step onCommand e (run onCommand events s)"
  by (simp add: run_def)

subsection \<open>Playback scheduling\<close>


lemma play_all_Nil: "play_all [] s = s"
  by (simp add: play_all_def)

lemma play_all_snoc:
  "play_all (frames @ [(now, b)]) s = schedule now b (play_all frames s)"
  by (simp add: play_all_def)











lemma schedule_isSpeaking:
  "schedule now b (s\<lparr>isSpeaking := v\<rparr>) = (schedule now b s)\<lparr>isSpeaking := v\<rparr>"
  by (simp add: schedule_def Let_def)

text \<open>
  The handler on a sequence of audio chunks, each a whole number of samples, is such a
  run of the scheduler: on the chunks' device times and on buffers of the chunks'
  durations.
\<close>

lemma run_audio_chunks:
  assumes "\<forall>c \<in> set cs. snd c \<noteq> [] \<and> even (length (snd c))"
  shows "\<exists>frames. map fst frames = map (\<lambda>c. currentTime (fst c)) cs \<and>
           map (\<lambda>f. duration (snd f)) frames = map (\<lambda>c. real (length (snd c) div 2) / 24000) cs \<and>
           run onCommand (audio_chunks cs) s =
             (if cs = [] then s else (play_all frames s)\<lparr>isSpeaking := True\<rparr>)"
  using assms
proof (induction cs rule: rev_induct)
  case Nil
  then show ?case by (simp add: run_def audio_chunks_def)
next
  case (snoc c cs)
  obtain env data where c: "c = (env, data)" by (cases c)
  have d: "data \<noteq> []" "even (length data)" using snoc.prems c by auto
  obtain frames where fr: "map fst frames = map (\<lambda>c. currentTime (fst c)) cs"
    "map (\<lambda>f. duration (snd f)) frames = map (\<lambda>c. real (length (snd c) div 2) / 24000) cs"
    "run onCommand (audio_chunks cs) s =
             (if cs = [] then s else (play_all frames s)\<lparr>isSpeaking := True\<rparr>)"
    using snoc by auto
  let ?s1 = "run onCommand (audio_chunks cs) s"
  obtain b where b: "duration b = real (length data div 2) / 24000"
    "onmessage onCommand env (audio_chunk data) ?s1 =
       Returned (schedule (currentTime env) b (?s1\<lparr>isSpeaking := True\<rparr>))"
    using onmessage_audio_chunk [OF d, of onCommand env ?s1] by blast
  have nil: "frames = []" if "cs = []" using fr(1) that by simp
  have "run onCommand (audio_chunks (cs @ [c])) s = step onCommand (Message env (audio_chunk data)) ?s1"
    by (simp add: audio_chunks_def run_def c)
  also have "\<dots> = schedule (currentTime env) b (?s1\<lparr>isSpeaking := True\<rparr>)"
    using b(2) by simp
  also have "\<dots> = (schedule (currentTime env) b (play_all frames s))\<lparr>isSpeaking := True\<rparr>"
    using nil by (simp add: fr(3) schedule_isSpeaking play_all_Nil)
  also have "\<dots> = (play_all (frames @ [(currentTime env, b)]) s)\<lparr>isSpeaking := True\<rparr>"
    by (simp only: play_all_snoc)
  finally have "run onCommand (audio_chunks (cs @ [c])) s =
      (play_all (frames @ [(currentTime env, b)]) s)\<lparr>isSpeaking := True\<rparr>" .
  moreover have "map fst (frames @ [(currentTime env, b)]) = map (\<lambda>c. currentTime (fst c)) (cs @ [c])"
    using fr(1) c by simp
  moreover have "map (\<lambda>f. duration (snd f)) (frames @ [(currentTime env, b)]) =
      map (\<lambda>c. real (length (snd c) div 2) / 24000) (cs @ [c])"
    using fr(2) c b(1) by simp
  ultimately show ?case by (intro exI [of _ "frames @ [(currentTime env, b)]"]) simp
qed



subsection \<open>Interruption\<close>



text \<open>
  C9. Whatever calls of \<open>stop\<close> throw, the interruption branch returns: no exception
  leaves it, and \<open>stop\<close> has been called on every tracked playback, in the order of
  the set, also on those behind one whose \<open>stop\<close> threw.
\<close>

theorem stop_failures_swallowed:
  "interrupted msg \<longrightarrow>
     (\<exists>s'. interrupted_branch env msg s = Returned s' \<and>
           stopCalls s' = stopCalls s @ sourcesRef s)"
  by (simp add: interrupted_branch_eq)

theorem stop_failures_swallowed_witness:
  "interrupted barge_in \<and> stopThrows first_stop_throws 0 \<and>
   stopCalls (left_behind (interrupted_branch first_stop_throws barge_in two_playing)) = [0, 1]"
  using stop_failures_swallowed [of barge_in first_stop_throws two_playing]
  by (auto simp: barge_in_def no_content_def first_stop_throws_def two_playing_def
      initial_def)

subsection \<open>Transcript and commands\<close>

lemma run_partial_transcripts:
  "run onCommand (partial_transcripts xs) s =
     s\<lparr>transcription := (if xs = [] then transcription s else snd (last xs))\<rparr>"
proof (induction xs rule: rev_induct)
  case Nil
  then show ?case by (simp add: run_def partial_transcripts_def)
next
  case (snoc x xs)
  obtain env str where x: "x = (env, str)" by (cases x)
  have "partial_transcripts (xs @ [x]) =
        partial_transcripts xs @ [Message env (partial_transcript str)]"
    by (simp add: partial_transcripts_def x)
  then show ?case
    by (simp only: run_snoc snoc.IH step_partial_transcript) (simp add: x)
qed

text \<open>
  C4. With a command callback: a partial-transcript event replaces the buffer by its
  text; after any sequence of partial transcripts the buffer holds the last text (the
  old buffer when the sequence is empty) and nothing was dispatched; the turn-complete
  event then calls the callback exactly once, on that text, when it is not empty, and
  not at all when it is empty; in both cases the buffer is empty afterwards, so a
  second turn-complete event dispatches nothing.
\<close>

theorem turn_finalization:
  fixes callback :: "string \<Rightarrow> 'w \<Rightarrow> 'w" and s :: "'w seva"
  shows
  "(let s1 = run (Some callback) (partial_transcripts xs) s;
        t = (if xs = [] then transcription s else snd (last xs));
        s2 = step (Some callback) (Message env turn_complete) s1;
        s3 = step (Some callback) (Message env' turn_complete) s2
    in step (Some callback) (Message env (partial_transcript str)) s =
         s\<lparr>transcription := str\<rparr> \<and>
       s1 = s\<lparr>transcription := t\<rparr> \<and>
       s2 = s\<lparr>transcription := [],
              world := (if t = [] then world s else callback t (world s))\<rparr> \<and>
       s3 = s2)"
  by (simp only: Let_def run_partial_transcripts step_partial_transcript step_turn_complete)
    (simp add: turnComplete_branch_def turn_complete_def no_content_def)

theorem turn_finalization_witness:
  "world (step (Some log_command) (Message quiet turn_complete)
      (run (Some log_command)
         (partial_transcripts [(quiet, ''H''), (quiet, ''He''), (quiet, ''Hello'')])
         (initial []))) = [''Hello''] \<and>
   world (step (Some log_command) (Message quiet turn_complete)
      (run (Some log_command) (partial_transcripts []) (initial []))) = []"
proof -
  note spoken = turn_finalization [of log_command
      "[(quiet, ''H''), (quiet, ''He''), (quiet, ''Hello'')]" "initial []" quiet quiet "''x''",
      unfolded Let_def, THEN conjunct2, THEN conjunct2, THEN conjunct1]
  note silent = turn_finalization [of log_command "[]" "initial []" quiet quiet "''x''",
      unfolded Let_def, THEN conjunct2, THEN conjunct2, THEN conjunct1]
  show ?thesis
    by (simp only: spoken silent) (simp add: log_command_def initial_def)
qed



subsection \<open>Starting and stopping\<close>

lemma startSession_body_fails:
  assumes "startup_fails env"
  shows "\<exists>e. startSession_body env s = Threw e s \<or>
             (\<exists>ctx. startSession_body env s = Threw e (s\<lparr>audioContextRef := Some ctx\<rparr>))"
  using assms
  by (auto simp: startup_fails_def startSession_body_def Let_def
      split: option.splits sum.splits)

lemma startSession_fails:
  assumes "startup_fails env"
  shows "\<exists>e ctx. startSession env s =
           Returned (s\<lparr>audioContextRef := ctx, consoleErrors := consoleErrors s @ [e]\<rparr>)"
proof -
  obtain e where
    "startSession_body env s = Threw e s \<or>
       (\<exists>ctx. startSession_body env s = Threw e (s\<lparr>audioContextRef := Some ctx\<rparr>))"
    using startSession_body_fails [OF assms] by blast
  then show ?thesis
  proof
    assume b: "startSession_body env s = Threw e s"
    have "startSession env s =
          Returned (s\<lparr>audioContextRef := audioContextRef s,
                      consoleErrors := consoleErrors s @ [e]\<rparr>)"
      by (simp add: startSession_def b)
    then show ?thesis by blast
  next
    assume "\<exists>ctx. startSession_body env s = Threw e (s\<lparr>audioContextRef := Some ctx\<rparr>)"
    then obtain ctx where
      b: "startSession_body env s = Threw e (s\<lparr>audioContextRef := Some ctx\<rparr>)"
      by blast
    have "startSession env s =
          Returned (s\<lparr>audioContextRef := Some ctx,
                      consoleErrors := consoleErrors s @ [e]\<rparr>)"
      by (simp add: startSession_def b)
    then show ?thesis by blast
  qed
qed

lemma startSession_succeeds:
  assumes "\<not> startup_fails env"
  shows "\<exists>ctx session. startSession env s =
           Returned (s\<lparr>audioContextRef := Some ctx, sessionRef := Some session,
                       isActive := True, isMinimized := False\<rparr>)"
  using assms
  by (auto simp: startup_fails_def startSession_def startSession_body_def Let_def
      split: option.splits sum.splits)

text \<open>
  C6. When a step of the startup fails (a constructor, the microphone request or the
  connection), \<open>startSession\<close> itself returns: the error is logged, not propagated.
  The session handle, the active flag and the minimized flag are what they were before
  the call, so from a state with no session and an inactive widget no handle is stored
  and the widget stays inactive. The only cells written are the log and
  \<open>audioContextRef\<close>, which no code reads. The round button of the minimized, inactive
  widget starts a session again, and a startup that does not fail then stores the
  handle and activates the widget.
\<close>

theorem startup_failure_atomic:
  "startup_fails env \<longrightarrow>
     (\<exists>s'. startSession env s = Returned s' \<and>
        sessionRef s' = sessionRef s \<and> isActive s' = isActive s \<and>
        isMinimized s' = isMinimized s \<and>
        (\<exists>e ctx. s' = s\<lparr>audioContextRef := ctx, consoleErrors := consoleErrors s @ [e]\<rparr>) \<and>
        (isMinimized s \<and> \<not> isActive s \<longrightarrow>
           (\<forall>retry. toggle_click retry s' = startSession retry s' \<and>
              (\<not> startup_fails retry \<longrightarrow>
                 (\<exists>s''. startSession retry s' = Returned s'' \<and>
                        sessionRef s'' \<noteq> None \<and> isActive s'')))))"
proof
  assume "startup_fails env"
  then obtain e ctx where
    r: "startSession env s =
        Returned (s\<lparr>audioContextRef := ctx, consoleErrors := consoleErrors s @ [e]\<rparr>)"
    using startSession_fails by blast
  let ?s' = "s\<lparr>audioContextRef := ctx, consoleErrors := consoleErrors s @ [e]\<rparr>"
  have "\<exists>e' ctx'. ?s' = s\<lparr>audioContextRef := ctx', consoleErrors := consoleErrors s @ [e']\<rparr>"
    by blast
  moreover have "\<exists>s''. startSession retry ?s' = Returned s'' \<and>
      sessionRef s'' \<noteq> None \<and> isActive s''"
    if ok: "\<not> startup_fails retry" for retry
  proof -
    obtain c n where "startSession retry ?s' =
        Returned (?s'\<lparr>audioContextRef := Some c, sessionRef := Some n,
                      isActive := True, isMinimized := False\<rparr>)"
      using startSession_succeeds [OF ok] by blast
    then show ?thesis by simp
  qed
  moreover have "isMinimized s \<and> \<not> isActive s \<longrightarrow>
      (\<forall>retry. toggle_click retry ?s' = startSession retry ?s')"
    by (simp add: toggle_click_def)
  ultimately show "\<exists>s'. startSession env s = Returned s' \<and>
        sessionRef s' = sessionRef s \<and> isActive s' = isActive s \<and>
        isMinimized s' = isMinimized s \<and>
        (\<exists>e ctx. s' = s\<lparr>audioContextRef := ctx, consoleErrors := consoleErrors s @ [e]\<rparr>) \<and>
        (isMinimized s \<and> \<not> isActive s \<longrightarrow>
           (\<forall>retry. toggle_click retry s' = startSession retry s' \<and>
              (\<not> startup_fails retry \<longrightarrow>
                 (\<exists>s''. startSession retry s' = Returned s'' \<and>
                        sessionRef s'' \<noteq> None \<and> isActive s''))))"
    unfolding r by simp
qed

theorem startup_failure_atomic_witness:
  "startup_fails mic_denied \<and>
   sessionRef (left_behind (startSession mic_denied (initial ()))) = None \<and>
   \<not> isActive (left_behind (startSession mic_denied (initial ()))) \<and>
   isMinimized (left_behind (startSession mic_denied (initial ())))"
  using startup_failure_atomic [of mic_denied "initial ()"]
  by (auto simp: startup_fails_def mic_denied_def initial_def)



subsection \<open>The tracked set and the indicator\<close>














subsection \<open>Outbound frames\<close>

lemma snd_of_pairs:
  assumes "xs @ ys = map (Pair a) zs"
  shows "map snd xs @ map snd ys = zs"
proof -
  have "map snd (xs @ ys) = map snd (map (Pair a) zs)"
    using assms by simp
  then show ?thesis by (simp add: comp_def)
qed

lemma captured_append: "captured (events @ [e]) = captured events @ payloads_of e"
  by (induction events rule: captured.induct)
     (simp_all add: payloads_of_def split: channel_event.splits)

lemma channel_inv_connecting: "channel_inv [] connecting"
  by (simp add: channel_inv_def connecting_def)

lemma channel_inv_step:
  assumes "channel_inv frames ch"
  shows "channel_inv (frames @ payloads_of e) (channel_step e ch)"
proof (cases e)
  case (AudioProcess inputData)
  then show ?thesis
    using assms
    by (simp add: channel_inv_def payloads_of_def onaudioprocess_def promise_then_def
        split: promise.splits)
next
  case (Settle result)
  then show ?thesis
    using assms
    by (simp add: channel_inv_def payloads_of_def settle_def split: promise.splits sum.splits)
next
  case Microtask
  then show ?thesis
    using assms
    by (cases "microtasks ch")
       (simp_all add: channel_inv_def payloads_of_def run_microtask_def split: promise.splits)
qed

lemma channel_run_snoc:
  "channel_run (events @ [e]) ch = channel_step e (channel_run events ch)"
  by (simp add: channel_run_def)

lemma channel_inv_run: "channel_inv (captured events) (channel_run events connecting)"
proof (induction events rule: rev_induct)
  case Nil
  then show ?case by (simp add: channel_run_def channel_inv_connecting)
next
  case (snoc e events)
  then show ?case
    by (simp only: channel_run_snoc captured_append channel_inv_step)
qed

text \<open>Running the queued jobs sends them, in queue order.\<close>

lemma drain:
  "sent (channel_run (replicate (length (microtasks ch)) Microtask) ch) =
     sent ch @ microtasks ch"
proof (induction "microtasks ch" arbitrary: ch)
  case Nil
  then show ?case by (simp add: channel_run_def)
next
  case (Cons job jobs)
  let ?ch' = "run_microtask ch"
  have s: "microtasks ?ch' = jobs" "sent ?ch' = sent ch @ [job]"
    using Cons.hyps(2) [symmetric] by (simp_all add: run_microtask_def)
  have "jobs = microtasks ?ch'" using s by simp
  then have "sent (channel_run (replicate (length (microtasks ?ch')) Microtask) ?ch') =
             sent ?ch' @ microtasks ?ch'"
    by (rule Cons.hyps(1))
  then show ?case
    using Cons.hyps(2) [symmetric] s by (simp add: channel_run_def)
qed

text \<open>
  C5. In every run of the channel, whatever the order of captured frames, settlement of
  the session promise and job executions: the payloads sent so far are a prefix of the
  payloads captured so far, in capture order; if anything has been sent, the promise is
  fulfilled and every send went to the session it was fulfilled with, so nothing is
  sent before the connection exists; while the promise is pending every captured frame
  waits in the reaction list; once it is fulfilled every captured frame is either sent
  or queued, in capture order, and running the queued jobs sends them all.
\<close>

theorem sends_follow_connection_in_order:
  "(let ch = channel_run events connecting in
      prefix (map snd (sent ch)) (captured events) \<and>
      (sent ch \<noteq> [] \<longrightarrow>
         (\<exists>session. sessionPromise ch = Fulfilled session \<and>
                    (\<forall>job \<in> set (sent ch). fst job = session))) \<and>
      (sessionPromise ch = Pending \<longrightarrow> reactions ch = captured events) \<and>
      (\<forall>session. sessionPromise ch = Fulfilled session \<longrightarrow>
         map snd (sent ch) @ map snd (microtasks ch) = captured events \<and>
         sent (channel_run (replicate (length (microtasks ch)) Microtask) ch) =
           map (Pair session) (captured events)))"
proof -
  let ?ch = "channel_run events connecting"
  have inv: "channel_inv (captured events) ?ch"
    by (rule channel_inv_run)
  have 1: "prefix (map snd (sent ?ch)) (captured events)"
  proof (cases "sessionPromise ?ch")
    case (Fulfilled session)
    then have "sent ?ch @ microtasks ?ch = map (Pair session) (captured events)"
      using inv by (simp add: channel_inv_def)
    then have "map snd (sent ?ch) @ map snd (microtasks ?ch) = captured events"
      by (rule snd_of_pairs)
    then show ?thesis by (metis prefixI)
  qed (use inv in \<open>simp_all add: channel_inv_def\<close>)
  have 2: "sent ?ch \<noteq> [] \<longrightarrow>
         (\<exists>session. sessionPromise ?ch = Fulfilled session \<and>
                    (\<forall>job \<in> set (sent ?ch). fst job = session))"
  proof (cases "sessionPromise ?ch")
    case (Fulfilled session)
    then have "sent ?ch @ microtasks ?ch = map (Pair session) (captured events)"
      using inv by (simp add: channel_inv_def)
    then have "set (sent ?ch) \<subseteq> Pair session ` set (captured events)"
      by (metis set_append set_map Un_upper1)
    then show ?thesis using Fulfilled by auto
  qed (use inv in \<open>simp_all add: channel_inv_def\<close>)
  have 3: "sessionPromise ?ch = Pending \<longrightarrow> reactions ?ch = captured events"
    using inv by (simp add: channel_inv_def split: promise.splits)
  have 4: "map snd (sent ?ch) @ map snd (microtasks ?ch) = captured events \<and>
         sent (channel_run (replicate (length (microtasks ?ch)) Microtask) ?ch) =
           map (Pair session) (captured events)"
    if f: "sessionPromise ?ch = Fulfilled session" for session
  proof -
    have e: "sent ?ch @ microtasks ?ch = map (Pair session) (captured events)"
      using inv f by (simp add: channel_inv_def)
    then have "map snd (sent ?ch) @ map snd (microtasks ?ch) = captured events"
      by (rule snd_of_pairs)
    then show ?thesis using e by (simp add: drain)
  qed
  show ?thesis
    unfolding Let_def using 1 2 3 4 by blast
qed

theorem sends_follow_connection_in_order_witness:
  "sent (channel_run
      [AudioProcess [0], Settle (Inr 1), AudioProcess [1 / 2], Microtask, Microtask]
      connecting)
     = [(1, frame_payload [0]), (1, frame_payload [1 / 2])] \<and>
   sent (channel_run [AudioProcess [0], AudioProcess [1 / 2], Microtask] connecting) = []"
  using sends_follow_connection_in_order
      [of "[AudioProcess [0], Settle (Inr 1), AudioProcess [1 / 2], Microtask, Microtask]"]
    sends_follow_connection_in_order
      [of "[AudioProcess [0], AudioProcess [1 / 2], Microtask]"]
  by (simp add: channel_run_def connecting_def onaudioprocess_def promise_then_def
      settle_def run_microtask_def Let_def)


end
